theory Spec2Isabelle
  imports Main
begin

section \<open>Python strings and lists\<close>

text \<open>
  A Python \<open>str\<close> is modelled as a \<open>string\<close> (a list of characters). The only string
  operations of \<open>metautil.py\<close> that matter are \<open>str.split(sep)\<close> with a one-character
  separator, \<open>str.replace\<close> of one character by another, \<open>%\<close>-formatting with \<open>%s\<close> and
  \<open>%d\<close>, and concatenation. None of them looks at a character other than to compare it
  with \<open>@\<close>, \<open>:\<close> or \<open>.\<close>.

  A raised exception is a value of type \<open>error\<close>; a function that can raise returns
  \<open>error + 'a\<close>, with \<open>Inl\<close> for the exception.
\<close>

datatype error =
    IndexError
  | UnknownVersionException string
  | EnvironmentError string
  | OtherException string

text \<open>\<open>s.split(sep)\<close> for a separator of one character: the result is never empty, and an
  empty piece stands between two adjacent separators and at either end.\<close>

fun split_str :: "char \<Rightarrow> string \<Rightarrow> string list" where
  "split_str sep [] = [[]]"
| "split_str sep (c # cs) =
     (let r = split_str sep cs
      in if c = sep then [] # r else (c # hd r) # tl r)"

text \<open>\<open>xs[i]\<close> for a non-negative literal index: IndexError out of range.\<close>

definition py_index :: "'a list \<Rightarrow> nat \<Rightarrow> error + 'a" where
  "py_index xs i = (if i < length xs then Inr (xs ! i) else Inl IndexError)"

text \<open>\<open>s.replace(a, b)\<close> for one-character \<open>a\<close> and \<open>b\<close>.\<close>

definition replace_char :: "char \<Rightarrow> char \<Rightarrow> string \<Rightarrow> string" where
  "replace_char a b s = map (\<lambda>c. if c = a then b else c) s"

text \<open>\<open>"%d" % n\<close> for a Python int: decimal digits, a leading minus sign when negative.\<close>

definition digit_char :: "nat \<Rightarrow> char" where
  "digit_char d = ''0123456789'' ! d"

function digits_nat :: "nat \<Rightarrow> string" where
  "digits_nat n = (if n < 10 then [digit_char n] else digits_nat (n div 10) @ [digit_char (n mod 10)])"
  by pat_completeness auto
termination
  by (relation "measure id") auto

declare digits_nat.simps [simp del]

definition fmt_d :: "int \<Rightarrow> string" where
  "fmt_d i = (if i < 0 then CHR ''-'' # digits_nat (nat (- i)) else digits_nat (nat i))"

section \<open>GradleSpecifier\<close>

record GradleSpecifier =
  group :: string
  artifact :: string
  version :: string
  extension :: string
  classifier :: "string option"

text \<open>\<open>GradleSpecifier.__init__\<close> (lines 34-49). The three indexings \<open>components[0..2]\<close>
  raise IndexError when the list is too short; the constructor then builds no object.\<close>

definition GradleSpecifier_init :: "string \<Rightarrow> error + GradleSpecifier" where
  "GradleSpecifier_init name =
     (let atSplit = split_str CHR ''@'' name in
      case py_index atSplit 0 of Inl e \<Rightarrow> Inl e | Inr a0 \<Rightarrow>
      let components = split_str CHR '':'' a0 in
      case py_index components 0 of Inl e \<Rightarrow> Inl e | Inr g \<Rightarrow>
      case py_index components 1 of Inl e \<Rightarrow> Inl e | Inr a \<Rightarrow>
      case py_index components 2 of Inl e \<Rightarrow> Inl e | Inr v \<Rightarrow>
      Inr \<lparr> group = g, artifact = a, version = v,
            extension = (if length atSplit = 2 then atSplit ! 1 else ''jar''),
            classifier = (if length components = 4 then Some (components ! 3) else None) \<rparr>)"

text \<open>Python truthiness of \<open>self.classifier\<close>: None and the empty string are false.\<close>

definition truthy :: "string option \<Rightarrow> bool" where
  "truthy c = (case c of None \<Rightarrow> False | Some s \<Rightarrow> s \<noteq> [])"

definition toString :: "GradleSpecifier \<Rightarrow> string" where
  "toString self =
     (let extensionStr = (if extension self \<noteq> ''jar'' then ''@'' @ extension self else '''')
      in if truthy (classifier self)
         then group self @ '':'' @ artifact self @ '':'' @ version self @ '':'' @
              the (classifier self) @ extensionStr
         else group self @ '':'' @ artifact self @ '':'' @ version self @ extensionStr)"

definition getFilename :: "GradleSpecifier \<Rightarrow> string" where
  "getFilename self =
     (if truthy (classifier self)
      then artifact self @ ''-'' @ version self @ ''-'' @ the (classifier self) @ ''.'' @ extension self
      else artifact self @ ''-'' @ version self @ ''.'' @ extension self)"

definition getBase :: "GradleSpecifier \<Rightarrow> string" where
  "getBase self =
     replace_char CHR ''.'' CHR ''/'' (group self) @ ''/'' @ artifact self @ ''/'' @ version self @ ''/''"

definition getPath :: "GradleSpecifier \<Rightarrow> string" where
  "getPath self = getBase self @ getFilename self"

definition GradleSpecifier_eq :: "GradleSpecifier \<Rightarrow> GradleSpecifier \<Rightarrow> bool" where
  "GradleSpecifier_eq self other =
     (group self = group other \<and> artifact self = artifact other \<and>
      version self = version other \<and> classifier self = classifier other)"

definition GradleSpecifier_ne :: "GradleSpecifier \<Rightarrow> GradleSpecifier \<Rightarrow> bool" where
  "GradleSpecifier_ne self other = (\<not> GradleSpecifier_eq self other)"

text \<open>\<open>__hash__\<close> is the hash of the canonical string. Python's built-in string hash is
  not part of the repository: it is the parameter \<open>str_hash\<close>.\<close>

definition GradleSpecifier_hash :: "(string \<Rightarrow> int) \<Rightarrow> GradleSpecifier \<Rightarrow> int" where
  "GradleSpecifier_hash str_hash self = str_hash (toString self)"

section \<open>Format-version gates\<close>

text \<open>\<open>validateSupportedMojangVersion\<close> (lines 190-194): returning normally is \<open>Inr ()\<close>, the
  raised exception carries the formatted message.\<close>

definition validateSupportedMojangVersion :: "int \<Rightarrow> error + unit" where
  "validateSupportedMojangVersion v =
     (let supportedVersion = 21
      in if v > supportedVersion
         then Inl (UnknownVersionException
                (''Unsupported Mojang format version: '' @ fmt_d v @
                 ''. Max supported is: '' @ fmt_d supportedVersion))
         else Inr ())"

definition CurrentPolyMCFormatVersion :: int where
  "CurrentPolyMCFormatVersion = 1"

definition validateSupportedPolyMCVersion :: "int \<Rightarrow> error + unit" where
  "validateSupportedPolyMCVersion v =
     (if v > CurrentPolyMCFormatVersion
      then Inl (UnknownVersionException
             (''Unsupported PolyMC format version: '' @ fmt_d v @
              ''. Max supported is: '' @ fmt_d CurrentPolyMCFormatVersion))
      else Inr ())"

text \<open>
  Modelled from the spec: the field-mapping engine (\<open>meta/jsonobject\<close>, imported at line 6) is
  not among the sources. Of it the declaration
  \<open>formatVersion = IntegerProperty(default=CurrentPolyMCFormatVersion,
  validators=validateSupportedPolyMCVersion)\<close> (line 233) needs only this: a field absent from
  the JSON object takes its declared default, and the declared validator runs on the value
  during decode. The argument is the field as found in the JSON object, \<open>None\<close> when it is
  absent.
\<close>

definition decode_formatVersion :: "int option \<Rightarrow> error + int" where
  "decode_formatVersion field =
     (let v = (case field of None \<Rightarrow> CurrentPolyMCFormatVersion | Some x \<Rightarrow> x)
      in case validateSupportedPolyMCVersion v of Inl e \<Rightarrow> Inl e | Inr u \<Rightarrow> Inr v)"

text \<open>
  Modelled from the spec: the same engine, for the declaration
  \<open>minimumLauncherVersion = IntegerProperty(exclude_if_none=True, default=None,
  validators=validateSupportedMojangVersion)\<close> (lines 207-208). The field is optional: when it
  is absent it stays \<open>None\<close> and is not validated; a value that is present is validated.
\<close>

definition decode_minimumLauncherVersion :: "int option \<Rightarrow> error + int option" where
  "decode_minimumLauncherVersion field =
     (case field of
        None \<Rightarrow> Inr None
      | Some x \<Rightarrow> (case validateSupportedMojangVersion x of Inl e \<Rightarrow> Inl e | Inr u \<Rightarrow> Inr (Some x)))"

section \<open>Saving a shared package descriptor\<close>

record PolyMCSharedPackageData =
  formatVersion :: int
  name :: string
  uid :: string
  recommended :: "string list option"
  authors :: "string list option"
  description :: "string option"
  projectUrl :: "string option"

text \<open>The world \<open>write\<close> acts on: the files by path, and the lines printed so far.\<close>

record world =
  files :: "string \<rightharpoonup> string"
  stdout :: "string list"

text \<open>
  What \<open>write\<close> takes from outside \<open>metautil.py\<close>: \<open>PMC_DIR\<close> (\<open>polymc_path()\<close> of \<open>.common\<close>),
  the JSON text \<open>json.dump(self.to_json(), sort_keys=True, indent=4)\<close> produces, the
  operating system's answer to opening the path for writing and writing the text (the
  exception raised, if any, and the files afterwards), and its answer to printing a line
  after the lines printed so far: \<open>None\<close> when the line is printed, or the exception
  \<open>print\<close> raises together with what standard output holds afterwards.
\<close>

record environment =
  PMC_DIR :: string
  dump_json :: "PolyMCSharedPackageData \<Rightarrow> string"
  open_and_write :: "string \<Rightarrow> string \<Rightarrow> (string \<rightharpoonup> string) \<Rightarrow> error option \<times> (string \<rightharpoonup> string)"
  print_outcome :: "string \<Rightarrow> string list \<Rightarrow> (error \<times> string list) option"

text \<open>\<open>print(line)\<close>: the line is appended to standard output, or \<open>print\<close> raises, as it does
  with an OSError when standard output cannot be written.\<close>

definition py_print :: "environment \<Rightarrow> string \<Rightarrow> world \<Rightarrow> (error + unit) \<times> world" where
  "py_print env line w =
     (case print_outcome env line (stdout w) of
        None \<Rightarrow> (Inr (), w\<lparr>stdout := stdout w @ [line]\<rparr>)
      | Some (x, out) \<Rightarrow> (Inl x, w\<lparr>stdout := out\<rparr>))"

text \<open>\<open>PolyMCSharedPackageData.write\<close> (lines 272-277; \<open>write\<close> is a keyword of
  Isabelle, hence the name \<open>write_data\<close>): \<open>except EnvironmentError\<close> catches the
  I/O errors of the \<open>try\<close> block and prints one line; any other exception leaves the method.
  \<open>print(a, e)\<close> writes \<open>a\<close>, a space and \<open>str(e)\<close>, which the exception value carries. The
  \<open>print\<close> stands in the handler, outside the \<open>try\<close>: an exception it raises leaves the
  method.\<close>

definition write_data :: "environment \<Rightarrow> PolyMCSharedPackageData \<Rightarrow> world \<Rightarrow> (error + unit) \<times> world" where
  "write_data env self w =
     (case open_and_write env (PMC_DIR env @ ''/'' @ uid self @ ''/package.json'')
             (dump_json env self) (files w) of
        (None, fs) \<Rightarrow> (Inr (), w\<lparr>files := fs\<rparr>)
      | (Some (EnvironmentError e), fs) \<Rightarrow>
          py_print env
            (''Error while trying to save shared packaged data for '' @ uid self @
             '':'' @ '' '' @ e)
            (w\<lparr>files := fs\<rparr>)
      | (Some x, fs) \<Rightarrow> (Inl x, w\<lparr>files := fs\<rparr>))"

section \<open>The pieces of a split string\<close>

text \<open>\<open>sep.join(ws)\<close>, the inverse of \<open>split\<close>; the source never calls it, the lemmas below
  use it to say what the pieces of a string are.\<close>

fun join_str :: "char \<Rightarrow> string list \<Rightarrow> string" where
  "join_str sep [] = []"
| "join_str sep [w] = w"
| "join_str sep (w # ws) = w @ sep # join_str sep ws"

text \<open>The normalized form of a coordinate string in the words of the specification: an
  explicit default extension, the suffix \<open>@jar\<close>, is dropped, and everything else is kept.\<close>

definition spec_normalized_form :: "string \<Rightarrow> string" where
  "spec_normalized_form s =
     (if 4 \<le> length s \<and> drop (length s - 4) s = ''@jar'' then take (length s - 4) s else s)"

text \<open>The shape of every coordinate the constructor builds: no field holds a separator it
  was split at.\<close>

definition parsed_shape :: "GradleSpecifier \<Rightarrow> bool" where
  "parsed_shape c = (CHR '':'' \<notin> set (group c) \<and> CHR ''@'' \<notin> set (group c) \<and>
           CHR '':'' \<notin> set (artifact c) \<and> CHR ''@'' \<notin> set (artifact c) \<and>
           CHR '':'' \<notin> set (version c) \<and> CHR ''@'' \<notin> set (version c) \<and>
           (case classifier c of None \<Rightarrow> True | Some k \<Rightarrow> CHR '':'' \<notin> set k \<and> CHR ''@'' \<notin> set k) \<and>
           CHR ''@'' \<notin> set (extension c))"

lemma split_str_nonempty: "split_str sep s \<noteq> []"
  by (induction s) (auto simp: Let_def)

lemma length_split_str: "length (split_str sep s) = Suc (count_list s sep)"
proof (induction s)
  case Nil
  then show ?case by simp
next
  case (Cons c cs)
  have "split_str sep cs \<noteq> []" by (rule split_str_nonempty)
  then have "length (tl (split_str sep cs)) = length (split_str sep cs) - 1" by simp
  with Cons show ?case by (simp add: Let_def)
qed

lemma hd_split_str: "hd (split_str sep s) = takeWhile (\<lambda>c. c \<noteq> sep) s"
  by (induction s) (auto simp: Let_def)

lemma split_str_pieces: "w \<in> set (split_str sep s) \<Longrightarrow> sep \<notin> set w"
proof (induction s arbitrary: w)
  case Nil
  then show ?case by simp
next
  case (Cons c cs)
  have ne: "split_str sep cs \<noteq> []" by (rule split_str_nonempty)
  show ?case
  proof (cases "c = sep")
    case True
    with Cons show ?thesis by (auto simp: Let_def)
  next
    case False
    from Cons.prems False have "w = c # hd (split_str sep cs) \<or> w \<in> set (tl (split_str sep cs))"
      by (simp add: Let_def)
    then show ?thesis
    proof
      assume "w = c # hd (split_str sep cs)"
      moreover have "sep \<notin> set (hd (split_str sep cs))"
        using Cons.IH [of "hd (split_str sep cs)"] ne by simp
      ultimately show ?thesis using False by auto
    next
      assume "w \<in> set (tl (split_str sep cs))"
      then have "w \<in> set (split_str sep cs)" using ne by (meson list.set_sel(2))
      then show ?thesis by (rule Cons.IH)
    qed
  qed
qed

lemma join_split_str: "join_str sep (split_str sep s) = s"
proof (induction s)
  case Nil
  then show ?case by simp
next
  case (Cons c cs)
  obtain w ws where r: "split_str sep cs = w # ws"
    using split_str_nonempty [of sep cs] by (cases "split_str sep cs") auto
  show ?case
  proof (cases "c = sep")
    case True
    with Cons r show ?thesis by (simp add: Let_def)
  next
    case False
    with Cons r show ?thesis by (cases ws) (auto simp: Let_def)
  qed
qed

lemma split_str_no_sep: "sep \<notin> set p \<Longrightarrow> split_str sep p = [p]"
  by (induction p) (auto simp: Let_def)

lemma split_str_append: "sep \<notin> set p \<Longrightarrow> split_str sep (p @ sep # r) = p # split_str sep r"
  by (induction p) (auto simp: Let_def)

section \<open>Parsing a coordinate\<close>

text \<open>The constructor, with its indexings resolved: it fails exactly when the part before
  the first \<open>@\<close> has fewer than three pieces.\<close>

lemma init_cases:
  "GradleSpecifier_init s =
     (let atSplit = split_str CHR ''@'' s; components = split_str CHR '':'' (hd atSplit)
      in if length components < 3 then Inl IndexError
         else Inr \<lparr> group = components ! 0, artifact = components ! 1, version = components ! 2,
            extension = (if length atSplit = 2 then atSplit ! 1 else ''jar''),
            classifier = (if length components = 4 then Some (components ! 3) else None) \<rparr>)"
proof -
  have "split_str CHR ''@'' s \<noteq> []" by (rule split_str_nonempty)
  then have "py_index (split_str CHR ''@'' s) 0 = Inr (hd (split_str CHR ''@'' s))"
    by (simp add: py_index_def hd_conv_nth)
  then show ?thesis
    by (auto simp: GradleSpecifier_init_def Let_def py_index_def)
qed

lemma init_fails:
  "length (split_str CHR '':'' (takeWhile (\<lambda>c. c \<noteq> CHR ''@'') s)) < 3 \<Longrightarrow>
   GradleSpecifier_init s = Inl IndexError"
  by (simp add: init_cases Let_def hd_split_str)

lemma init_succeeds:
  "\<not> length (split_str CHR '':'' (takeWhile (\<lambda>c. c \<noteq> CHR ''@'') s)) < 3 \<Longrightarrow>
   \<exists>c. GradleSpecifier_init s = Inr c"
  by (simp add: init_cases Let_def hd_split_str)

text \<open>
  Claim C4. Parsing fails with an error for every input whose part before the first \<open>@\<close>
  has fewer than three \<open>:\<close>-separated segments, and succeeds for every other input. The
  error is Python's IndexError, raised by \<open>components[1]\<close> or \<open>components[2]\<close>. The number of
  segments is one more than the number of colons in that part.
\<close>

theorem parse_fails_iff_fewer_than_three_segments:
  "(length (split_str CHR '':'' (takeWhile (\<lambda>c. c \<noteq> CHR ''@'') s)) < 3
      \<longrightarrow> GradleSpecifier_init s = Inl IndexError) \<and>
   (\<not> length (split_str CHR '':'' (takeWhile (\<lambda>c. c \<noteq> CHR ''@'') s)) < 3
      \<longrightarrow> (\<exists>c. GradleSpecifier_init s = Inr c)) \<and>
   length (split_str CHR '':'' (takeWhile (\<lambda>c. c \<noteq> CHR ''@'') s))
     = Suc (count_list (takeWhile (\<lambda>c. c \<noteq> CHR ''@'') s) CHR '':'')"
  using init_fails [of s] init_succeeds [of s] by (simp add: length_split_str)

theorem parse_fails_iff_fewer_than_three_segments_witness:
  "GradleSpecifier_init ''a:b@c:d:e'' = Inl IndexError \<and>
   (\<exists>c. GradleSpecifier_init ''a:b:c'' = Inr c)"
  using parse_fails_iff_fewer_than_three_segments [of "''a:b@c:d:e''"]
        parse_fails_iff_fewer_than_three_segments [of "''a:b:c''"]
  by simp

lemma init_Inr:
  assumes "GradleSpecifier_init s = Inr c"
  shows "3 \<le> length (split_str CHR '':'' (takeWhile (\<lambda>c. c \<noteq> CHR ''@'') s))"
    and "group c = split_str CHR '':'' (takeWhile (\<lambda>c. c \<noteq> CHR ''@'') s) ! 0"
    and "artifact c = split_str CHR '':'' (takeWhile (\<lambda>c. c \<noteq> CHR ''@'') s) ! 1"
    and "version c = split_str CHR '':'' (takeWhile (\<lambda>c. c \<noteq> CHR ''@'') s) ! 2"
    and "extension c = (if length (split_str CHR ''@'' s) = 2 then split_str CHR ''@'' s ! 1 else ''jar'')"
    and "classifier c = (if length (split_str CHR '':'' (takeWhile (\<lambda>c. c \<noteq> CHR ''@'') s)) = 4
           then Some (split_str CHR '':'' (takeWhile (\<lambda>c. c \<noteq> CHR ''@'') s) ! 3) else None)"
  using assms by (auto simp: init_cases Let_def hd_split_str split: if_splits)

lemma three_pieces:
  assumes "3 \<le> length ws"
  shows "\<exists>others. ws = ws ! 0 # ws ! 1 # ws ! 2 # others"
proof -
  obtain a r1 where 1: "ws = a # r1" using assms by (cases ws) auto
  obtain b r2 where 2: "r1 = b # r2" using assms 1 by (cases r1) auto
  obtain d r3 where 3: "r2 = d # r3" using assms 1 2 by (cases r2) auto
  show ?thesis using 1 2 3 by simp
qed

lemma join_three:
  "\<exists>rest. join_str sep (a # b # d # others) = a @ sep # b @ sep # d @ rest \<and>
          (rest = [] \<or> hd rest = sep)"
  by (cases others) auto

lemma takeWhile_no_sep: "sep \<notin> set (takeWhile (\<lambda>c. c \<noteq> sep) s)"
  by (induction s) auto

lemma pieces_of_pre_at:
  assumes "w \<in> set (split_str CHR '':'' (takeWhile (\<lambda>c. c \<noteq> CHR ''@'') s))"
  shows "CHR '':'' \<notin> set w" and "CHR ''@'' \<notin> set w"
proof -
  let ?p = "takeWhile (\<lambda>c. c \<noteq> CHR ''@'') s"
  show "CHR '':'' \<notin> set w" using assms by (rule split_str_pieces)
  have "set w \<subseteq> set ?p"
  proof -
    have "\<And>ws. w \<in> set ws \<Longrightarrow> set w \<subseteq> set (join_str CHR '':'' ws)"
    proof -
      fix ws show "w \<in> set ws \<Longrightarrow> set w \<subseteq> set (join_str CHR '':'' ws)"
        by (induction "CHR '':''" ws rule: join_str.induct) auto
    qed
    from this [OF assms] show ?thesis by (simp add: join_split_str)
  qed
  then show "CHR ''@'' \<notin> set w" using takeWhile_no_sep [of "CHR ''@''" s] by auto
qed

text \<open>
  Claim C3, as amended. For every input the constructor accepts, group, artifact and
  version are the first three \<open>:\<close>-separated segments of the part before the first \<open>@\<close>:
  that part starts with \<open>group:artifact:version\<close>, followed by nothing or by a colon, and
  none of the three contains \<open>:\<close> or \<open>@\<close>. Nothing in the constructor asks a segment to be
  non-empty: a field is empty when its segment is, as in \<open>"::"\<close>.
\<close>

theorem parsed_fields_are_first_three_segments:
  assumes "GradleSpecifier_init s = Inr c"
  shows "[group c, artifact c, version c]
           = take 3 (split_str CHR '':'' (takeWhile (\<lambda>c. c \<noteq> CHR ''@'') s)) \<and>
         (\<forall>f \<in> {group c, artifact c, version c}. CHR '':'' \<notin> set f \<and> CHR ''@'' \<notin> set f) \<and>
         (\<exists>rest. takeWhile (\<lambda>c. c \<noteq> CHR ''@'') s
                  = group c @ '':'' @ artifact c @ '':'' @ version c @ rest \<and>
                (rest = [] \<or> hd rest = CHR '':''))"
proof -
  let ?ws = "split_str CHR '':'' (takeWhile (\<lambda>c. c \<noteq> CHR ''@'') s)"
  note f = init_Inr [OF assms]
  obtain others where ws: "?ws = group c # artifact c # version c # others"
    using three_pieces [OF f(1)] f(2,3,4) by auto
  have a: "[group c, artifact c, version c] = take 3 ?ws"
    by (simp add: ws)
  have "\<forall>f \<in> set ?ws. CHR '':'' \<notin> set f \<and> CHR ''@'' \<notin> set f"
    using pieces_of_pre_at by blast
  then have b: "\<forall>f \<in> {group c, artifact c, version c}. CHR '':'' \<notin> set f \<and> CHR ''@'' \<notin> set f"
    by (simp add: ws)
  have "join_str CHR '':'' ?ws = takeWhile (\<lambda>c. c \<noteq> CHR ''@'') s"
    by (rule join_split_str)
  then have "\<exists>rest. takeWhile (\<lambda>c. c \<noteq> CHR ''@'') s
                  = group c @ '':'' @ artifact c @ '':'' @ version c @ rest \<and>
                (rest = [] \<or> hd rest = CHR '':'')"
    using join_three [of "CHR '':''" "group c" "artifact c" "version c" others] by (simp add: ws)
  with a b show ?thesis by blast
qed

theorem parsed_fields_are_first_three_segments_witness:
  "GradleSpecifier_init ''org.lwjgl:lwjgl:2.9.0:natives@zip''
     = Inr \<lparr>group = ''org.lwjgl'', artifact = ''lwjgl'', version = ''2.9.0'',
            extension = ''zip'', classifier = Some ''natives''\<rparr> \<and>
   [''org.lwjgl'', ''lwjgl'', ''2.9.0'']
     = take 3 (split_str CHR '':'' (takeWhile (\<lambda>c. c \<noteq> CHR ''@'') ''org.lwjgl:lwjgl:2.9.0:natives@zip'')) \<and>
   (\<exists>rest. ''org.lwjgl:lwjgl:2.9.0:natives'' = ''org.lwjgl:lwjgl:2.9.0'' @ rest \<and>
           (rest = [] \<or> hd rest = CHR '':''))"
proof -
  have h: "GradleSpecifier_init ''org.lwjgl:lwjgl:2.9.0:natives@zip''
     = Inr \<lparr>group = ''org.lwjgl'', artifact = ''lwjgl'', version = ''2.9.0'',
            extension = ''zip'', classifier = Some ''natives''\<rparr>"
    by (simp add: init_cases)
  show ?thesis
    using h parsed_fields_are_first_three_segments [OF h] by simp
qed

text \<open>The claim as first stated, that the three fields of an accepted input are non-empty,
  fails at \<open>"::"\<close>: the input is accepted and all three fields are empty.\<close>

theorem nonempty_fields_counterexample:
  "GradleSpecifier_init ''::''
     = Inr \<lparr>group = [], artifact = [], version = [], extension = ''jar'', classifier = None\<rparr>"
  by (simp add: init_cases)

section \<open>Equality and derived paths\<close>

text \<open>
  Claim C2. Equality of coordinates ignores the extension and distinguishes the classifier:
  \<open>parse("g:a:1.0@zip") == parse("g:a:1.0")\<close> holds and
  \<open>parse("g:a:1.0:dbg") != parse("g:a:1.0")\<close> holds; in general two parsed coordinates are
  equal if and only if group, artifact, version and classifier all match, and \<open>!=\<close> is the
  negation of \<open>==\<close>.
\<close>

theorem equality_ignores_extension_only:
  "(\<exists>c1 c2. GradleSpecifier_init ''g:a:1.0@zip'' = Inr c1 \<and> GradleSpecifier_init ''g:a:1.0'' = Inr c2 \<and>
            GradleSpecifier_eq c1 c2 \<and> \<not> GradleSpecifier_ne c1 c2) \<and>
   (\<exists>c1 c2. GradleSpecifier_init ''g:a:1.0:dbg'' = Inr c1 \<and> GradleSpecifier_init ''g:a:1.0'' = Inr c2 \<and>
            GradleSpecifier_ne c1 c2 \<and> \<not> GradleSpecifier_eq c1 c2) \<and>
   (\<forall>s1 s2 c1 c2. GradleSpecifier_init s1 = Inr c1 \<and> GradleSpecifier_init s2 = Inr c2 \<longrightarrow>
      (GradleSpecifier_eq c1 c2 \<longleftrightarrow>
         group c1 = group c2 \<and> artifact c1 = artifact c2 \<and> version c1 = version c2 \<and>
         classifier c1 = classifier c2) \<and>
      (GradleSpecifier_ne c1 c2 \<longleftrightarrow> \<not> GradleSpecifier_eq c1 c2))"
  by (simp add: init_cases GradleSpecifier_eq_def GradleSpecifier_ne_def)

theorem equality_ignores_extension_only_witness:
  "GradleSpecifier_eq
     \<lparr>group = ''g'', artifact = ''a'', version = ''1.0'', extension = ''zip'', classifier = None\<rparr>
     \<lparr>group = ''g'', artifact = ''a'', version = ''1.0'', extension = ''jar'', classifier = None\<rparr> \<and>
   GradleSpecifier_ne
     \<lparr>group = ''g'', artifact = ''a'', version = ''1.0'', extension = ''jar'', classifier = Some ''dbg''\<rparr>
     \<lparr>group = ''g'', artifact = ''a'', version = ''1.0'', extension = ''jar'', classifier = None\<rparr>"
proof -
  have z: "GradleSpecifier_init ''g:a:1.0@zip''
      = Inr \<lparr>group = ''g'', artifact = ''a'', version = ''1.0'', extension = ''zip'', classifier = None\<rparr>"
    by (simp add: init_cases)
  have j: "GradleSpecifier_init ''g:a:1.0''
      = Inr \<lparr>group = ''g'', artifact = ''a'', version = ''1.0'', extension = ''jar'', classifier = None\<rparr>"
    by (simp add: init_cases)
  have d: "GradleSpecifier_init ''g:a:1.0:dbg''
      = Inr \<lparr>group = ''g'', artifact = ''a'', version = ''1.0'', extension = ''jar'', classifier = Some ''dbg''\<rparr>"
    by (simp add: init_cases)
  from equality_ignores_extension_only z j d show ?thesis
    by (metis GradleSpecifier.select_convs(1,2,3,5) option.distinct(1))
qed

text \<open>
  Claim C6. For every parsed coordinate the file name is
  \<open>artifact-version[-classifier].extension\<close>, where the classifier part is written when the
  coordinate has a classifier that is not the empty string; the relative directory is the group
  with each \<open>.\<close> replaced by \<open>/\<close>, followed by \<open>/artifact/version/\<close>; the relative path is the
  directory followed by the file name. In particular the path of
  \<open>"org.lwjgl:lwjgl:2.9.0"\<close> is \<open>"org/lwjgl/lwjgl/2.9.0/lwjgl-2.9.0.jar"\<close>.
\<close>

theorem path_derivation:
  "(\<forall>s c. GradleSpecifier_init s = Inr c \<longrightarrow>
      getFilename c = artifact c @ ''-'' @ version c @
         (case classifier c of None \<Rightarrow> [] | Some k \<Rightarrow> if k = [] then [] else ''-'' @ k) @
         ''.'' @ extension c \<and>
      getBase c = map (\<lambda>ch. if ch = CHR ''.'' then CHR ''/'' else ch) (group c) @
         ''/'' @ artifact c @ ''/'' @ version c @ ''/'' \<and>
      getPath c = getBase c @ getFilename c) \<and>
   (\<exists>c. GradleSpecifier_init ''org.lwjgl:lwjgl:2.9.0'' = Inr c \<and>
        getPath c = ''org/lwjgl/lwjgl/2.9.0/lwjgl-2.9.0.jar'')"
  by (simp add: init_cases getFilename_def getBase_def getPath_def truthy_def replace_char_def
      split: option.splits)

theorem path_derivation_witness:
  "getFilename \<lparr>group = ''org.lwjgl.lwjgl'', artifact = ''lwjgl-platform'', version = ''2.9.0'',
                extension = ''zip'', classifier = Some ''natives-linux''\<rparr>
     = ''lwjgl-platform-2.9.0-natives-linux.zip'' \<and>
   getBase \<lparr>group = ''org.lwjgl.lwjgl'', artifact = ''lwjgl-platform'', version = ''2.9.0'',
                extension = ''zip'', classifier = Some ''natives-linux''\<rparr>
     = ''org/lwjgl/lwjgl/lwjgl-platform/2.9.0/'' \<and>
   getPath \<lparr>group = ''org.lwjgl.lwjgl'', artifact = ''lwjgl-platform'', version = ''2.9.0'',
                extension = ''zip'', classifier = Some ''natives-linux''\<rparr>
     = ''org/lwjgl/lwjgl/lwjgl-platform/2.9.0/lwjgl-platform-2.9.0-natives-linux.zip''"
proof -
  have h: "GradleSpecifier_init ''org.lwjgl.lwjgl:lwjgl-platform:2.9.0:natives-linux@zip''
      = Inr \<lparr>group = ''org.lwjgl.lwjgl'', artifact = ''lwjgl-platform'', version = ''2.9.0'',
                extension = ''zip'', classifier = Some ''natives-linux''\<rparr>"
    by (simp add: init_cases)
  have "getFilename \<lparr>group = ''org.lwjgl.lwjgl'', artifact = ''lwjgl-platform'', version = ''2.9.0'',
                extension = ''zip'', classifier = Some ''natives-linux''\<rparr>
     = ''lwjgl-platform-2.9.0-natives-linux.zip'' \<and>
   getBase \<lparr>group = ''org.lwjgl.lwjgl'', artifact = ''lwjgl-platform'', version = ''2.9.0'',
                extension = ''zip'', classifier = Some ''natives-linux''\<rparr>
     = ''org/lwjgl/lwjgl/lwjgl-platform/2.9.0/''"
    using path_derivation h by simp
  then show ?thesis using path_derivation h by simp
qed

section \<open>The format-version gates\<close>

lemma fmt_d_1: "fmt_d 1 = ''1''"
  by (simp add: fmt_d_def digits_nat.simps digit_char_def)

lemma fmt_d_21: "fmt_d 21 = ''21''"
  by (simp add: fmt_d_def digits_nat.simps digit_char_def)

text \<open>
  Claim C7. Validating a decoded \<open>formatVersion\<close> strictly greater than the current
  supported version, 1, fails with the unknown-version error, whose message carries the
  observed value and the maximum; every value less than or equal to 1 passes; an omitted
  \<open>formatVersion\<close> takes the default, the current supported version 1, and so never fails.
\<close>

theorem native_format_version_gate:
  "(v > 1 \<longrightarrow> validateSupportedPolyMCVersion v =
       Inl (UnknownVersionException
             (''Unsupported PolyMC format version: '' @ fmt_d v @ ''. Max supported is: 1'')) \<and>
     decode_formatVersion (Some v) = 
       Inl (UnknownVersionException
             (''Unsupported PolyMC format version: '' @ fmt_d v @ ''. Max supported is: 1''))) \<and>
   (v \<le> 1 \<longrightarrow> validateSupportedPolyMCVersion v = Inr () \<and> decode_formatVersion (Some v) = Inr v) \<and>
   CurrentPolyMCFormatVersion = 1 \<and>
   decode_formatVersion None = Inr 1"
  by (simp add: validateSupportedPolyMCVersion_def decode_formatVersion_def
      CurrentPolyMCFormatVersion_def fmt_d_1)

theorem native_format_version_gate_witness:
  "validateSupportedPolyMCVersion 2 =
     Inl (UnknownVersionException ''Unsupported PolyMC format version: 2. Max supported is: 1'') \<and>
   decode_formatVersion (Some 2) =
     Inl (UnknownVersionException ''Unsupported PolyMC format version: 2. Max supported is: 1'') \<and>
   validateSupportedPolyMCVersion 1 = Inr () \<and>
   decode_formatVersion (Some 1) = Inr 1 \<and>
   validateSupportedPolyMCVersion (- 3) = Inr ()"
proof -
  have f: "fmt_d 2 = ''2''"
    by (simp add: fmt_d_def digits_nat.simps digit_char_def)
  show ?thesis
    using native_format_version_gate [of 2] native_format_version_gate [of 1]
      native_format_version_gate [of "- 3"] f
    by simp
qed

text \<open>
  Claim C8. Validating a \<open>minimumLauncherVersion\<close> strictly greater than the hard-coded
  maximum 21 fails with the unknown-version error, whose message carries both values; a value
  of 21 or less passes; an absent field stays \<open>None\<close> and the check is not run on it.
\<close>

theorem minimum_launcher_version_gate:
  "(v > 21 \<longrightarrow> validateSupportedMojangVersion v =
       Inl (UnknownVersionException
             (''Unsupported Mojang format version: '' @ fmt_d v @ ''. Max supported is: 21'')) \<and>
     decode_minimumLauncherVersion (Some v) =
       Inl (UnknownVersionException
             (''Unsupported Mojang format version: '' @ fmt_d v @ ''. Max supported is: 21''))) \<and>
   (v \<le> 21 \<longrightarrow> validateSupportedMojangVersion v = Inr () \<and>
      decode_minimumLauncherVersion (Some v) = Inr (Some v)) \<and>
   decode_minimumLauncherVersion None = Inr None"
  by (simp add: validateSupportedMojangVersion_def decode_minimumLauncherVersion_def fmt_d_21)

theorem minimum_launcher_version_gate_witness:
  "validateSupportedMojangVersion 22 =
     Inl (UnknownVersionException ''Unsupported Mojang format version: 22. Max supported is: 21'') \<and>
   decode_minimumLauncherVersion (Some 22) =
     Inl (UnknownVersionException ''Unsupported Mojang format version: 22. Max supported is: 21'') \<and>
   validateSupportedMojangVersion 21 = Inr () \<and>
   decode_minimumLauncherVersion (Some 21) = Inr (Some 21)"
proof -
  have f: "fmt_d 22 = ''22''"
    by (simp add: fmt_d_def digits_nat.simps digit_char_def)
  show ?thesis
    using minimum_launcher_version_gate [of 22] minimum_launcher_version_gate [of 21] f
    by simp
qed

section \<open>Saving catches a failed write\<close>

text \<open>
  Claim C9, as amended. Saving a shared package descriptor never propagates a failure of
  the file write to its caller: whatever the descriptor, when opening or writing the file at
  the fixed path \<open>PMC_DIR/<uid>/package.json\<close> fails with an I/O error, the error is caught
  and one line naming the package and the error is handed to \<open>print\<close>. When the line is
  printed the call returns normally; an exception raised by \<open>print\<close> itself is the only one
  that then leaves the call.
\<close>

theorem write_catches_write_failure:
  assumes "open_and_write env (PMC_DIR env @ ''/'' @ uid self @ ''/package.json'')
             (dump_json env self) (files w) = (Some (EnvironmentError e), fs)"
  shows "(print_outcome env
            (''Error while trying to save shared packaged data for '' @ uid self @ '': '' @ e)
            (stdout w) = None \<longrightarrow>
          write_data env self w =
            (Inr (), w\<lparr>files := fs,
                       stdout := stdout w @
                         [''Error while trying to save shared packaged data for '' @ uid self @
                          '': '' @ e]\<rparr>)) \<and>
         (\<forall>x out. print_outcome env
            (''Error while trying to save shared packaged data for '' @ uid self @ '': '' @ e)
            (stdout w) = Some (x, out) \<longrightarrow>
          write_data env self w = (Inl x, w\<lparr>files := fs, stdout := out\<rparr>))"
  using assms by (simp add: write_data_def py_print_def)

theorem write_catches_write_failure_witness:
  "write_data
     \<lparr>PMC_DIR = ''/srv/polymc'', dump_json = (\<lambda>d. ''{}''),
      open_and_write = (\<lambda>path text fs. (Some (EnvironmentError ''[Errno 13] Permission denied''), fs)),
      print_outcome = (\<lambda>line out. None)\<rparr>
     \<lparr>formatVersion = 1, name = ''Minecraft'', uid = ''net.minecraft'', recommended = None,
      authors = None, description = None, projectUrl = None\<rparr>
     \<lparr>files = Map.empty, stdout = []\<rparr>
   = (Inr (),
      \<lparr>files = Map.empty,
       stdout = [''Error while trying to save shared packaged data for net.minecraft: [Errno 13] Permission denied'']\<rparr>) \<and>
   write_data
     \<lparr>PMC_DIR = ''/srv/polymc'', dump_json = (\<lambda>d. ''{}''),
      open_and_write = (\<lambda>path text fs. (Some (EnvironmentError ''[Errno 13] Permission denied''), fs)),
      print_outcome = (\<lambda>line out. Some (EnvironmentError ''[Errno 32] Broken pipe'', out))\<rparr>
     \<lparr>formatVersion = 1, name = ''Minecraft'', uid = ''net.minecraft'', recommended = None,
      authors = None, description = None, projectUrl = None\<rparr>
     \<lparr>files = Map.empty, stdout = [''earlier line'']\<rparr>
   = (Inl (EnvironmentError ''[Errno 32] Broken pipe''),
      \<lparr>files = Map.empty, stdout = [''earlier line'']\<rparr>)"
proof -
  let ?ok = "\<lparr>PMC_DIR = ''/srv/polymc'', dump_json = (\<lambda>d. ''{}''),
      open_and_write = (\<lambda>path text fs. (Some (EnvironmentError ''[Errno 13] Permission denied''), fs)),
      print_outcome = (\<lambda>line out. None)\<rparr>"
  let ?broken = "\<lparr>PMC_DIR = ''/srv/polymc'', dump_json = (\<lambda>d. ''{}''),
      open_and_write = (\<lambda>path text fs. (Some (EnvironmentError ''[Errno 13] Permission denied''), fs)),
      print_outcome = (\<lambda>line out. Some (EnvironmentError ''[Errno 32] Broken pipe'', out))\<rparr>"
  let ?self = "\<lparr>formatVersion = 1, name = ''Minecraft'', uid = ''net.minecraft'', recommended = None,
      authors = None, description = None, projectUrl = None\<rparr>"
  let ?w = "\<lparr>files = Map.empty, stdout = []\<rparr>"
  let ?v = "\<lparr>files = Map.empty, stdout = [''earlier line'']\<rparr>"
  have h: "open_and_write ?ok (PMC_DIR ?ok @ ''/'' @ uid ?self @ ''/package.json'')
             (dump_json ?ok ?self) (files ?w)
           = (Some (EnvironmentError ''[Errno 13] Permission denied''), Map.empty)"
    by simp
  have k: "open_and_write ?broken (PMC_DIR ?broken @ ''/'' @ uid ?self @ ''/package.json'')
             (dump_json ?broken ?self) (files ?v)
           = (Some (EnvironmentError ''[Errno 13] Permission denied''), Map.empty)"
    by simp
  have a: "write_data ?ok ?self ?w
     = (Inr (),
        \<lparr>files = Map.empty,
         stdout = [''Error while trying to save shared packaged data for net.minecraft: [Errno 13] Permission denied'']\<rparr>)"
    using write_catches_write_failure [OF h] by simp
  have b: "write_data ?broken ?self ?v
     = (Inl (EnvironmentError ''[Errno 32] Broken pipe''), ?v)"
    using write_catches_write_failure [OF k] by simp
  from a b show ?thesis by simp
qed

text \<open>
  The claim as first stated, that the call returns normally whenever the write fails with an
  I/O error, fails when the report cannot be printed either: with the file write and
  \<open>print\<close> both raising an I/O error, the error raised by \<open>print\<close> leaves the call.
\<close>

theorem write_returns_normally_counterexample:
  "write_data
     \<lparr>PMC_DIR = ''/srv/polymc'', dump_json = (\<lambda>d. ''{}''),
      open_and_write = (\<lambda>path text fs. (Some (EnvironmentError ''[Errno 28] No space left on device''), fs)),
      print_outcome = (\<lambda>line out. Some (EnvironmentError ''[Errno 28] No space left on device'', out))\<rparr>
     \<lparr>formatVersion = 1, name = ''Minecraft'', uid = ''net.minecraft'', recommended = None,
      authors = None, description = None, projectUrl = None\<rparr>
     \<lparr>files = Map.empty, stdout = []\<rparr>
   = (Inl (EnvironmentError ''[Errno 28] No space left on device''),
      \<lparr>files = Map.empty, stdout = []\<rparr>)"
  by (simp add: write_data_def py_print_def)

section \<open>More on splitting\<close>

lemma split_str_takeWhile_dropWhile:
  "split_str sep s =
     takeWhile (\<lambda>c. c \<noteq> sep) s #
       (case dropWhile (\<lambda>c. c \<noteq> sep) s of [] \<Rightarrow> [] | c # r \<Rightarrow> split_str sep r)"
proof (cases "dropWhile (\<lambda>c. c \<noteq> sep) s")
  case Nil
  then have n: "sep \<notin> set s" by (auto simp: dropWhile_eq_Nil_conv)
  then have tw: "takeWhile (\<lambda>c. c \<noteq> sep) s = s" by (auto simp: takeWhile_eq_all_conv)
  have sp: "split_str sep s = [s]" using n by (rule split_str_no_sep)
  show ?thesis unfolding sp Nil tw by simp
next
  case (Cons c r)
  have "\<not> (hd (dropWhile (\<lambda>c. c \<noteq> sep) s) \<noteq> sep)"
    by (rule hd_dropWhile) (simp add: Cons)
  then have c: "c = sep" by (simp add: Cons)
  have "takeWhile (\<lambda>c. c \<noteq> sep) s @ dropWhile (\<lambda>c. c \<noteq> sep) s = s"
    by (rule takeWhile_dropWhile_id)
  then have "split_str sep s = split_str sep (takeWhile (\<lambda>c. c \<noteq> sep) s @ sep # r)"
    by (simp add: Cons c)
  also have "\<dots> = takeWhile (\<lambda>c. c \<noteq> sep) s # split_str sep r"
    by (rule split_str_append) (rule takeWhile_no_sep)
  finally show ?thesis by (simp add: Cons)
qed

lemma split_str_replace_head:
  assumes "sep \<notin> set p"
  shows "split_str sep (p @ dropWhile (\<lambda>c. c \<noteq> sep) s) = p # tl (split_str sep s)"
proof (cases "dropWhile (\<lambda>c. c \<noteq> sep) s")
  case Nil
  have "tl (split_str sep s) = []"
    by (subst split_str_takeWhile_dropWhile) (simp add: Nil)
  moreover have "split_str sep (p @ dropWhile (\<lambda>c. c \<noteq> sep) s) = [p]"
    unfolding Nil using assms by (simp add: split_str_no_sep)
  ultimately show ?thesis by simp
next
  case (Cons c r)
  have "\<not> (hd (dropWhile (\<lambda>c. c \<noteq> sep) s) \<noteq> sep)"
    by (rule hd_dropWhile) (simp add: Cons)
  then have c: "c = sep" by (simp add: Cons)
  have "tl (split_str sep s) = split_str sep r"
    by (subst split_str_takeWhile_dropWhile) (simp add: Cons)
  moreover have "split_str sep (p @ dropWhile (\<lambda>c. c \<noteq> sep) s) = p # split_str sep r"
    unfolding Cons c using assms by (rule split_str_append)
  ultimately show ?thesis by simp
qed

lemma join_str_no_sep:
  "\<forall>w \<in> set ws. c \<notin> set w \<Longrightarrow> c \<noteq> sep \<Longrightarrow> c \<notin> set (join_str sep ws)"
  by (induction sep ws rule: join_str.induct) auto

lemma split_join_str:
  "ws \<noteq> [] \<Longrightarrow> \<forall>w \<in> set ws. sep \<notin> set w \<Longrightarrow> split_str sep (join_str sep ws) = ws"
proof (induction sep ws rule: join_str.induct)
  case (1 sep)
  then show ?case by simp
next
  case (2 sep w)
  then show ?case by (simp add: split_str_no_sep)
next
  case (3 sep w v va)
  then show ?case by (simp add: split_str_append)
qed

section \<open>Inputs beyond the documented shapes\<close>

lemma init_of_split:
  assumes "split_str CHR ''@'' x = p # rest" and "split_str CHR '':'' p = g # a # v # others"
  shows "GradleSpecifier_init x =
           Inr \<lparr> group = g, artifact = a, version = v,
                 extension = (if length rest = 1 then hd rest else ''jar''),
                 classifier = (if length others = 1 then Some (hd others) else None) \<rparr>"
proof -
  have "length rest = 1 \<Longrightarrow> rest ! 0 = hd rest" by (cases rest) auto
  moreover have "length others = 1 \<Longrightarrow> others ! 0 = hd others" by (cases others) auto
  ultimately show ?thesis
    by (simp add: init_cases [of x] assms Let_def)
qed

lemma init_pre_at_only:
  assumes "2 \<le> count_list s CHR ''@''"
  shows "GradleSpecifier_init s = GradleSpecifier_init (takeWhile (\<lambda>c. c \<noteq> CHR ''@'') s)"
proof -
  let ?p = "takeWhile (\<lambda>c. c \<noteq> CHR ''@'') s"
  have l: "length (split_str CHR ''@'' s) \<noteq> 2"
    using assms by (simp add: length_split_str)
  have "CHR ''@'' \<notin> set ?p" by (rule takeWhile_no_sep)
  then have p: "split_str CHR ''@'' ?p = [?p]" by (rule split_str_no_sep)
  show ?thesis
    by (simp add: init_cases [of s] init_cases [of ?p] p l hd_split_str Let_def)
qed

lemma init_extension_default:
  assumes "2 \<le> count_list s CHR ''@''" and "GradleSpecifier_init s = Inr c"
  shows "extension c = ''jar''"
proof -
  have "length (split_str CHR ''@'' s) \<noteq> 2"
    using assms(1) by (simp add: length_split_str)
  then show ?thesis using init_Inr(5) [OF assms(2)] by simp
qed

lemma init_first_three:
  assumes "5 \<le> length (split_str CHR '':'' (takeWhile (\<lambda>c. c \<noteq> CHR ''@'') s))"
  shows "GradleSpecifier_init s =
           Inr \<lparr> group = split_str CHR '':'' (takeWhile (\<lambda>c. c \<noteq> CHR ''@'') s) ! 0,
                 artifact = split_str CHR '':'' (takeWhile (\<lambda>c. c \<noteq> CHR ''@'') s) ! 1,
                 version = split_str CHR '':'' (takeWhile (\<lambda>c. c \<noteq> CHR ''@'') s) ! 2,
                 extension = (if length (split_str CHR ''@'' s) = 2 then split_str CHR ''@'' s ! 1 else ''jar''),
                 classifier = None \<rparr>"
  using assms by (simp add: init_cases Let_def hd_split_str)

lemma init_truncated:
  assumes "3 \<le> length (split_str CHR '':'' (takeWhile (\<lambda>c. c \<noteq> CHR ''@'') s))"
  shows "GradleSpecifier_init
           (join_str CHR '':'' (take 3 (split_str CHR '':'' (takeWhile (\<lambda>c. c \<noteq> CHR ''@'') s))) @
            dropWhile (\<lambda>c. c \<noteq> CHR ''@'') s) =
           Inr \<lparr> group = split_str CHR '':'' (takeWhile (\<lambda>c. c \<noteq> CHR ''@'') s) ! 0,
                 artifact = split_str CHR '':'' (takeWhile (\<lambda>c. c \<noteq> CHR ''@'') s) ! 1,
                 version = split_str CHR '':'' (takeWhile (\<lambda>c. c \<noteq> CHR ''@'') s) ! 2,
                 extension = (if length (split_str CHR ''@'' s) = 2 then split_str CHR ''@'' s ! 1 else ''jar''),
                 classifier = None \<rparr>"
proof -
  let ?ws = "split_str CHR '':'' (takeWhile (\<lambda>c. c \<noteq> CHR ''@'') s)"
  let ?p = "join_str CHR '':'' (take 3 ?ws)"
  let ?X = "split_str CHR ''@'' s"
  have pieces: "\<forall>w \<in> set (take 3 ?ws). CHR '':'' \<notin> set w \<and> CHR ''@'' \<notin> set w"
    using pieces_of_pre_at [of _ s] by (meson in_set_takeD)
  have ne: "take 3 ?ws \<noteq> []" using assms by auto
  have comps: "split_str CHR '':'' ?p = take 3 ?ws"
    using ne pieces by (simp add: split_join_str)
  have "CHR ''@'' \<notin> set ?p"
    using pieces by (simp add: join_str_no_sep)
  then have at: "split_str CHR ''@'' (?p @ dropWhile (\<lambda>c. c \<noteq> CHR ''@'') s) = ?p # tl ?X"
    by (rule split_str_replace_head)
  obtain x0 xr where X: "?X = x0 # xr"
    using split_str_nonempty [of "CHR ''@''" s] by (cases ?X) auto
  obtain others where ws: "?ws = ?ws ! 0 # ?ws ! 1 # ?ws ! 2 # others"
    using three_pieces [OF assms] by blast
  have t3: "take 3 ?ws = [?ws ! 0, ?ws ! 1, ?ws ! 2]"
    by (subst ws) simp
  have c3: "split_str CHR '':'' ?p = ?ws ! 0 # ?ws ! 1 # ?ws ! 2 # []"
    using comps t3 by simp
  have "GradleSpecifier_init (?p @ dropWhile (\<lambda>c. c \<noteq> CHR ''@'') s) =
          Inr \<lparr> group = ?ws ! 0, artifact = ?ws ! 1, version = ?ws ! 2,
                extension = (if length (tl ?X) = 1 then hd (tl ?X) else ''jar''),
                classifier = None \<rparr>"
    using init_of_split [OF at c3] by simp
  moreover have "(if length (tl ?X) = 1 then hd (tl ?X) else ''jar'')
      = (if length ?X = 2 then ?X ! 1 else ''jar'')"
    unfolding X by (cases xr) auto
  ultimately show ?thesis by simp
qed

text \<open>
  Claim C10. The constructor is lenient beyond the documented shapes. When the part before
  the first \<open>@\<close> has five or more \<open>:\<close>-separated segments, parsing succeeds, the classifier
  is \<open>None\<close> and the segments past the third are ignored: the result is the one obtained from
  the first three segments alone (with the same \<open>@\<close> suffix). When the input contains two or
  more \<open>@\<close> characters the suffixes are ignored: the result is that of the part before the
  first \<open>@\<close>, and the extension of an accepted input is the default \<open>jar\<close>.
\<close>

theorem parse_is_lenient:
  "(5 \<le> length (split_str CHR '':'' (takeWhile (\<lambda>c. c \<noteq> CHR ''@'') s)) \<longrightarrow>
      (\<exists>c. GradleSpecifier_init s = Inr c \<and> classifier c = None \<and>
           [group c, artifact c, version c]
             = take 3 (split_str CHR '':'' (takeWhile (\<lambda>c. c \<noteq> CHR ''@'') s)) \<and>
           GradleSpecifier_init
             (join_str CHR '':'' (take 3 (split_str CHR '':'' (takeWhile (\<lambda>c. c \<noteq> CHR ''@'') s))) @
              dropWhile (\<lambda>c. c \<noteq> CHR ''@'') s) = Inr c)) \<and>
   (2 \<le> count_list s CHR ''@'' \<longrightarrow>
      GradleSpecifier_init s = GradleSpecifier_init (takeWhile (\<lambda>c. c \<noteq> CHR ''@'') s) \<and>
      (\<forall>c. GradleSpecifier_init s = Inr c \<longrightarrow> extension c = ''jar''))"
proof (intro conjI impI allI)
  let ?ws = "split_str CHR '':'' (takeWhile (\<lambda>c. c \<noteq> CHR ''@'') s)"
  assume five: "5 \<le> length ?ws"
  then have three: "3 \<le> length ?ws" by simp
  obtain others where ws: "?ws = ?ws ! 0 # ?ws ! 1 # ?ws ! 2 # others"
    using three_pieces [OF three] by blast
  have t3: "take 3 ?ws = [?ws ! 0, ?ws ! 1, ?ws ! 2]"
    by (subst ws) simp
  show "\<exists>c. GradleSpecifier_init s = Inr c \<and> classifier c = None \<and>
           [group c, artifact c, version c] = take 3 ?ws \<and>
           GradleSpecifier_init
             (join_str CHR '':'' (take 3 ?ws) @ dropWhile (\<lambda>c. c \<noteq> CHR ''@'') s) = Inr c"
    using init_first_three [OF five] init_truncated [OF three] t3 by simp
next
  assume "2 \<le> count_list s CHR ''@''"
  then show "GradleSpecifier_init s = GradleSpecifier_init (takeWhile (\<lambda>c. c \<noteq> CHR ''@'') s)"
    by (rule init_pre_at_only)
next
  fix c
  assume "2 \<le> count_list s CHR ''@''" and "GradleSpecifier_init s = Inr c"
  then show "extension c = ''jar''" by (rule init_extension_default)
qed

theorem parse_is_lenient_witness:
  "GradleSpecifier_init ''a:b:c:d:e@zip''
     = Inr \<lparr>group = ''a'', artifact = ''b'', version = ''c'', extension = ''zip'', classifier = None\<rparr> \<and>
   GradleSpecifier_init ''a:b:c@zip'' = GradleSpecifier_init ''a:b:c:d:e@zip'' \<and>
   GradleSpecifier_init ''a:b:c:d@zip@tar'' = GradleSpecifier_init ''a:b:c:d'' \<and>
   GradleSpecifier_init ''a:b:c:d@zip@tar''
     = Inr \<lparr>group = ''a'', artifact = ''b'', version = ''c'', extension = ''jar'', classifier = Some ''d''\<rparr>"
proof -
  have a: "GradleSpecifier_init ''a:b:c:d:e@zip''
     = Inr \<lparr>group = ''a'', artifact = ''b'', version = ''c'', extension = ''zip'', classifier = None\<rparr>"
    by (simp add: init_cases)
  have b: "GradleSpecifier_init ''a:b:c:d@zip@tar''
     = Inr \<lparr>group = ''a'', artifact = ''b'', version = ''c'', extension = ''jar'', classifier = Some ''d''\<rparr>"
    by (simp add: init_cases)
  show ?thesis
    using parse_is_lenient [of "''a:b:c:d:e@zip''"] parse_is_lenient [of "''a:b:c:d@zip@tar''"] a b
    by simp
qed

section \<open>The canonical string and back\<close>

lemma init_parsed_shape:
  assumes "GradleSpecifier_init s = Inr c"
  shows "parsed_shape c"
proof -
  let ?ws = "split_str CHR '':'' (takeWhile (\<lambda>c. c \<noteq> CHR ''@'') s)"
  note f = init_Inr [OF assms]
  have p: "\<And>i. i < length ?ws \<Longrightarrow> CHR '':'' \<notin> set (?ws ! i) \<and> CHR ''@'' \<notin> set (?ws ! i)"
    using pieces_of_pre_at [of _ s] nth_mem by blast
  have g: "CHR '':'' \<notin> set (group c) \<and> CHR ''@'' \<notin> set (group c)"
    using p [of 0] f(1,2) by (simp add: split_str_nonempty)
  have a: "CHR '':'' \<notin> set (artifact c) \<and> CHR ''@'' \<notin> set (artifact c)"
    using p [of 1] f(1,3) by simp
  have v: "CHR '':'' \<notin> set (version c) \<and> CHR ''@'' \<notin> set (version c)"
    using p [of 2] f(1,4) by simp
  have k: "(case classifier c of None \<Rightarrow> True | Some k \<Rightarrow> CHR '':'' \<notin> set k \<and> CHR ''@'' \<notin> set k)"
    using p [of 3] f(6) by (simp split: if_splits)
  have e: "CHR ''@'' \<notin> set (extension c)"
  proof (cases "length (split_str CHR ''@'' s) = 2")
    case True
    then have "split_str CHR ''@'' s ! 1 \<in> set (split_str CHR ''@'' s)" by simp
    then have "CHR ''@'' \<notin> set (split_str CHR ''@'' s ! 1)" by (rule split_str_pieces)
    then show ?thesis using f(5) True by simp
  next
    case False
    then show ?thesis using f(5) by simp
  qed
  from g a v k e show ?thesis by (simp add: parsed_shape_def)
qed

lemma init_toString:
  assumes "parsed_shape c" and "classifier c \<noteq> Some []"
  shows "GradleSpecifier_init (toString c) = Inr c"
proof -
  let ?base = "group c @ CHR '':'' # artifact c @ CHR '':'' # version c"
  let ?p = "case classifier c of None \<Rightarrow> ?base | Some k \<Rightarrow> ?base @ CHR '':'' # k"
  have noat: "CHR ''@'' \<notin> set ?p"
    using assms(1) by (auto simp: parsed_shape_def split: option.splits)
  have ts: "toString c = ?p @ (if extension c \<noteq> ''jar'' then CHR ''@'' # extension c else [])"
    using assms(2) by (auto simp: toString_def truthy_def Let_def split: option.splits)
  have at: "split_str CHR ''@'' (toString c)
      = ?p # (if extension c \<noteq> ''jar'' then [extension c] else [])"
  proof (cases "extension c = ''jar''")
    case True
    then show ?thesis using noat ts by (simp add: split_str_no_sep)
  next
    case False
    have "CHR ''@'' \<notin> set (extension c)" using assms(1) by (simp add: parsed_shape_def)
    then have "split_str CHR ''@'' (extension c) = [extension c]" by (rule split_str_no_sep)
    then show ?thesis using False noat ts by (simp add: split_str_append)
  qed
  have colon: "split_str CHR '':'' ?p
      = group c # artifact c # version c # (case classifier c of None \<Rightarrow> [] | Some k \<Rightarrow> [k])"
    using assms(1) by (auto simp: parsed_shape_def split_str_append split_str_no_sep split: option.splits)
  have "GradleSpecifier_init (toString c) =
      Inr \<lparr> group = group c, artifact = artifact c, version = version c,
            extension = extension c, classifier = classifier c \<rparr>"
    using init_of_split [OF at colon] by (auto split: option.splits)
  then show ?thesis by simp
qed

lemma last_piece:
  assumes "sep \<notin> set e"
  shows "takeWhile (\<lambda>c. c \<noteq> sep) (rev (p @ sep # e)) = rev e"
proof -
  have "takeWhile (\<lambda>c. c \<noteq> sep) (rev e @ sep # rev p) = rev e @ takeWhile (\<lambda>c. c \<noteq> sep) (sep # rev p)"
    using assms by (intro takeWhile_append2) auto
  then show ?thesis by simp
qed

lemma spec_normalized_form_no_at:
  assumes "CHR ''@'' \<notin> set s"
  shows "spec_normalized_form s = s"
proof -
  have "drop (length s - 4) s \<noteq> ''@jar''"
  proof
    assume "drop (length s - 4) s = ''@jar''"
    then have "CHR ''@'' \<in> set (drop (length s - 4) s)" by simp
    then show False using assms by (meson in_set_dropD)
  qed
  then show ?thesis by (simp add: spec_normalized_form_def)
qed

lemma spec_normalized_form_one_at:
  assumes "CHR ''@'' \<notin> set e"
  shows "spec_normalized_form (p @ CHR ''@'' # e) = (if e = ''jar'' then p else p @ CHR ''@'' # e)"
proof (cases "e = ''jar''")
  case True
  then show ?thesis by (simp add: spec_normalized_form_def)
next
  case False
  let ?s = "p @ CHR ''@'' # e"
  have "drop (length ?s - 4) ?s \<noteq> ''@jar''"
  proof
    assume d: "drop (length ?s - 4) ?s = ''@jar''"
    have "take (length ?s - 4) ?s @ drop (length ?s - 4) ?s = ?s" by (rule append_take_drop_id)
    then have "?s = take (length ?s - 4) ?s @ CHR ''@'' # ''jar''" using d by simp
    then have "takeWhile (\<lambda>c. c \<noteq> CHR ''@'') (rev ?s)
        = takeWhile (\<lambda>c. c \<noteq> CHR ''@'') (rev (take (length ?s - 4) ?s @ CHR ''@'' # ''jar''))"
      by simp
    also have "\<dots> = rev ''jar''" by (rule last_piece) simp
    finally have "rev e = rev ''jar''" using last_piece [OF assms, of p] by simp
    then show False using False by simp
  qed
  then show ?thesis using False by (simp add: spec_normalized_form_def)
qed

lemma count_list_zero: "count_list s x = 0 \<Longrightarrow> x \<notin> set s"
  by (induction s) (auto split: if_splits)

lemma count_list_one:
  "count_list s x = 1 \<Longrightarrow> \<exists>p e. s = p @ x # e \<and> x \<notin> set p \<and> x \<notin> set e"
proof (induction s)
  case Nil
  then show ?case by simp
next
  case (Cons a s)
  show ?case
  proof (cases "a = x")
    case True
    with Cons.prems have "count_list s x = 0" by simp
    then have "x \<notin> set s" by (rule count_list_zero)
    then have "a # s = [] @ x # s \<and> x \<notin> set [] \<and> x \<notin> set s" using True by simp
    then show ?thesis by blast
  next
    case False
    with Cons.prems have "count_list s x = 1" by simp
    then obtain p e where "s = p @ x # e" "x \<notin> set p" "x \<notin> set e" using Cons.IH by blast
    then have "a # s = (a # p) @ x # e \<and> x \<notin> set (a # p) \<and> x \<notin> set e" using False by simp
    then show ?thesis by blast
  qed
qed

lemma takeWhile_before_sep:
  "sep \<notin> set p \<Longrightarrow> takeWhile (\<lambda>c. c \<noteq> sep) (p @ sep # e) = p"
  by (induction p) auto

lemma toString_of_pieces:
  assumes ws: "split_str CHR '':'' p = ws"
    and shape: "length ws = 3 \<or> length ws = 4 \<and> ws ! 3 \<noteq> []"
    and c: "c = \<lparr> group = ws ! 0, artifact = ws ! 1, version = ws ! 2, extension = x,
                  classifier = (if length ws = 4 then Some (ws ! 3) else None) \<rparr>"
  shows "toString c = p @ (if x \<noteq> ''jar'' then CHR ''@'' # x else [])"
proof -
  have p: "p = join_str CHR '':'' ws" using ws join_split_str [of "CHR '':''" p] by simp
  from shape show ?thesis
  proof
    assume l: "length ws = 3"
    then obtain g a v where w: "ws = [g, a, v]"
      by (auto simp: numeral_3_eq_3 length_Suc_conv)
    show ?thesis unfolding p c w by (simp add: toString_def truthy_def Let_def)
  next
    assume l: "length ws = 4 \<and> ws ! 3 \<noteq> []"
    then have "length ws = Suc (Suc (Suc (Suc 0)))" by simp
    then obtain g a v k where w: "ws = [g, a, v, k]"
      by (auto simp: length_Suc_conv)
    have "k \<noteq> []" using l unfolding w by simp
    then show ?thesis unfolding p c w by (simp add: toString_def truthy_def Let_def)
  qed
qed

lemma init_Inr_record:
  assumes init: "GradleSpecifier_init s = Inr c"
  shows "c = \<lparr> group = split_str CHR '':'' (takeWhile (\<lambda>c. c \<noteq> CHR ''@'') s) ! 0, 
    artifact = split_str CHR '':'' (takeWhile (\<lambda>c. c \<noteq> CHR ''@'') s) ! 1, 
    version = split_str CHR '':'' (takeWhile (\<lambda>c. c \<noteq> CHR ''@'') s) ! 2,
    extension = (if length (split_str CHR ''@'' s) = 2 then split_str CHR ''@'' s ! 1 else ''jar''),
    classifier = (if length (split_str CHR '':'' (takeWhile (\<lambda>c. c \<noteq> CHR ''@'') s)) = 4 then Some (split_str CHR '':'' (takeWhile (\<lambda>c. c \<noteq> CHR ''@'') s) ! 3) else None) \<rparr>"
proof -
  note f = init_Inr [OF init]
  have "c = \<lparr> group = group c, artifact = artifact c, version = version c,
              extension = extension c, classifier = classifier c \<rparr>"
    by simp
  then show ?thesis
    unfolding f(2,3,4,5,6) .
qed

lemma toString_init:
  assumes init: "GradleSpecifier_init s = Inr c"
    and shape: "length (split_str CHR '':'' (takeWhile (\<lambda>c. c \<noteq> CHR ''@'') s)) = 3 \<or>
                length (split_str CHR '':'' (takeWhile (\<lambda>c. c \<noteq> CHR ''@'') s)) = 4 \<and>
                split_str CHR '':'' (takeWhile (\<lambda>c. c \<noteq> CHR ''@'') s) ! 3 \<noteq> []"
  shows "toString c = takeWhile (\<lambda>c. c \<noteq> CHR ''@'') s @
     (if (if length (split_str CHR ''@'' s) = 2 then split_str CHR ''@'' s ! 1 else ''jar'') \<noteq> ''jar''
      then CHR ''@'' # (if length (split_str CHR ''@'' s) = 2 then split_str CHR ''@'' s ! 1 else ''jar'') else [])"
proof -
  let ?p = "takeWhile (\<lambda>c. c \<noteq> CHR ''@'') s"
  let ?ws = "split_str CHR '':'' ?p"
  let ?x = "if length (split_str CHR ''@'' s) = 2 then split_str CHR ''@'' s ! 1 else ''jar''"
  note c = init_Inr_record [OF init]
  show ?thesis
    by (rule toString_of_pieces [where p = ?p and ws = ?ws and x = ?x, OF refl shape c])
qed

lemma normalized_without_at:
  assumes ts: "t = takeWhile (\<lambda>c. c \<noteq> CHR ''@'') s @
     (if (if length (split_str CHR ''@'' s) = 2 then split_str CHR ''@'' s ! 1 else ''jar'') \<noteq> ''jar''
      then CHR ''@'' # (if length (split_str CHR ''@'' s) = 2 then split_str CHR ''@'' s ! 1 else ''jar'') else [])"
   and z: "count_list s CHR ''@'' = 0"
  shows "t = spec_normalized_form s"
proof -
  from z have n: "CHR ''@'' \<notin> set s" by (rule count_list_zero)
  then have sp: "split_str CHR ''@'' s = [s]" by (rule split_str_no_sep)
  have tw: "takeWhile (\<lambda>c. c \<noteq> CHR ''@'') s = s" using n by (auto simp: takeWhile_eq_all_conv)
  have "t = s @ []" unfolding ts sp tw by simp
  then show ?thesis using n by (simp add: spec_normalized_form_no_at)
qed

lemma split_str_two:
  assumes q: "sep \<notin> set q" and e: "sep \<notin> set e"
  shows "split_str sep (q @ sep # e) = [q, e]"
proof -
  have "split_str sep (q @ sep # e) = q # split_str sep e"
    using q by (rule split_str_append)
  also have "split_str sep e = [e]" using e by (rule split_str_no_sep)
  finally show ?thesis .
qed

lemma normalized_with_one_at:
  assumes ts: "t = takeWhile (\<lambda>c. c \<noteq> CHR ''@'') s @
     (if (if length (split_str CHR ''@'' s) = 2 then split_str CHR ''@'' s ! 1 else ''jar'') \<noteq> ''jar''
      then CHR ''@'' # (if length (split_str CHR ''@'' s) = 2 then split_str CHR ''@'' s ! 1 else ''jar'') else [])"
   and z: "count_list s CHR ''@'' = 1"
  shows "t = spec_normalized_form s"
proof -
  from z have "\<exists>q e. s = q @ CHR ''@'' # e \<and> CHR ''@'' \<notin> set q \<and> CHR ''@'' \<notin> set e"
    by (rule count_list_one)
  then obtain q e where s: "s = q @ CHR ''@'' # e" and q: "CHR ''@'' \<notin> set q"
      and e: "CHR ''@'' \<notin> set e"
    by blast
  have sp: "split_str CHR ''@'' (q @ CHR ''@'' # e) = [q, e]"
    using q e by (rule split_str_two)
  have tw: "takeWhile (\<lambda>c. c \<noteq> CHR ''@'') (q @ CHR ''@'' # e) = q"
    using q by (rule takeWhile_before_sep)
  have "t = q @ (if e \<noteq> ''jar'' then CHR ''@'' # e else [])"
    unfolding ts s sp tw by simp
  also have "\<dots> = spec_normalized_form (q @ CHR ''@'' # e)"
    using e by (simp add: spec_normalized_form_one_at)
  finally show ?thesis unfolding s .
qed

lemma toString_init_normalized:
  assumes init: "GradleSpecifier_init s = Inr c"
    and at: "count_list s CHR ''@'' \<le> 1"
    and shape: "length (split_str CHR '':'' (takeWhile (\<lambda>c. c \<noteq> CHR ''@'') s)) = 3 \<or>
                length (split_str CHR '':'' (takeWhile (\<lambda>c. c \<noteq> CHR ''@'') s)) = 4 \<and>
                split_str CHR '':'' (takeWhile (\<lambda>c. c \<noteq> CHR ''@'') s) ! 3 \<noteq> []"
  shows "toString c = spec_normalized_form s"
proof -
  note ts = toString_init [OF init shape]
  from at have "count_list s CHR ''@'' = 0 \<or> count_list s CHR ''@'' = 1" by arith
  then show ?thesis
  proof
    assume "count_list s CHR ''@'' = 0"
    with ts show ?thesis by (rule normalized_without_at)
  next
    assume "count_list s CHR ''@'' = 1"
    with ts show ?thesis by (rule normalized_with_one_at)
  qed
qed

text \<open>
  Claim C5, as amended. Let \<open>s\<close> be accepted by the constructor, with result \<open>c\<close>.
  When \<open>s\<close> has at most one \<open>@\<close> and the part before it has exactly three
  \<open>:\<close>-separated segments, or four with a non-empty fourth, the canonical string of \<open>c\<close> is
  the normalized form of \<open>s\<close>: \<open>s\<close> with an explicit \<open>@jar\<close> suffix dropped and everything
  else unchanged. When the classifier of \<open>c\<close> is not the empty string, parsing the canonical
  string succeeds and yields a coordinate equal to \<open>c\<close> with the same extension.
\<close>

theorem canonical_string_round_trip:
  assumes "GradleSpecifier_init s = Inr c"
  shows "(count_list s CHR ''@'' \<le> 1 \<and>
          (length (split_str CHR '':'' (takeWhile (\<lambda>c. c \<noteq> CHR ''@'') s)) = 3 \<or>
           length (split_str CHR '':'' (takeWhile (\<lambda>c. c \<noteq> CHR ''@'') s)) = 4 \<and>
           split_str CHR '':'' (takeWhile (\<lambda>c. c \<noteq> CHR ''@'') s) ! 3 \<noteq> [])
            \<longrightarrow> toString c = spec_normalized_form s) \<and>
         (classifier c \<noteq> Some [] \<longrightarrow>
            (\<exists>c'. GradleSpecifier_init (toString c) = Inr c' \<and> GradleSpecifier_eq c' c \<and>
                  extension c' = extension c))"
proof (intro conjI impI)
  assume "count_list s CHR ''@'' \<le> 1 \<and>
          (length (split_str CHR '':'' (takeWhile (\<lambda>c. c \<noteq> CHR ''@'') s)) = 3 \<or>
           length (split_str CHR '':'' (takeWhile (\<lambda>c. c \<noteq> CHR ''@'') s)) = 4 \<and>
           split_str CHR '':'' (takeWhile (\<lambda>c. c \<noteq> CHR ''@'') s) ! 3 \<noteq> [])"
  then show "toString c = spec_normalized_form s"
    using toString_init_normalized [OF assms] by blast
next
  assume "classifier c \<noteq> Some []"
  then have "GradleSpecifier_init (toString c) = Inr c"
    using init_parsed_shape [OF assms] by (intro init_toString)
  then show "\<exists>c'. GradleSpecifier_init (toString c) = Inr c' \<and> GradleSpecifier_eq c' c \<and>
                  extension c' = extension c"
    by (simp add: GradleSpecifier_eq_def)
qed

theorem canonical_string_round_trip_witness:
  "toString \<lparr>group = ''g'', artifact = ''a'', version = ''1.0'', extension = ''jar'',
             classifier = Some ''dbg''\<rparr> = ''g:a:1.0:dbg'' \<and>
   spec_normalized_form ''g:a:1.0:dbg@jar'' = ''g:a:1.0:dbg'' \<and>
   (\<exists>c'. GradleSpecifier_init ''g:a:1.0:dbg'' = Inr c' \<and>
         GradleSpecifier_eq c' \<lparr>group = ''g'', artifact = ''a'', version = ''1.0'',
                                  extension = ''jar'', classifier = Some ''dbg''\<rparr> \<and>
         extension c' = ''jar'')"
proof -
  let ?c = "\<lparr>group = ''g'', artifact = ''a'', version = ''1.0'', extension = ''jar'',
             classifier = Some ''dbg''\<rparr>"
  have h: "GradleSpecifier_init ''g:a:1.0:dbg@jar'' = Inr ?c"
    by (simp add: init_cases)
  have n: "spec_normalized_form ''g:a:1.0:dbg@jar'' = ''g:a:1.0:dbg''"
    by (simp add: spec_normalized_form_def)
  have pre: "count_list ''g:a:1.0:dbg@jar'' CHR ''@'' \<le> 1 \<and>
          (length (split_str CHR '':'' (takeWhile (\<lambda>c. c \<noteq> CHR ''@'') ''g:a:1.0:dbg@jar'')) = 3 \<or>
           length (split_str CHR '':'' (takeWhile (\<lambda>c. c \<noteq> CHR ''@'') ''g:a:1.0:dbg@jar'')) = 4 \<and>
           split_str CHR '':'' (takeWhile (\<lambda>c. c \<noteq> CHR ''@'') ''g:a:1.0:dbg@jar'') ! 3 \<noteq> [])"
    by simp
  have k: "classifier ?c \<noteq> Some []" by simp
  note rt = canonical_string_round_trip [OF h]
  from rt pre have t: "toString ?c = spec_normalized_form ''g:a:1.0:dbg@jar''" by blast
  from rt k have r: "\<exists>c'. GradleSpecifier_init (toString ?c) = Inr c' \<and> GradleSpecifier_eq c' ?c \<and>
                  extension c' = extension ?c" by blast
  from t n have t': "toString ?c = ''g:a:1.0:dbg''" by simp
  from r have "\<exists>c'. GradleSpecifier_init ''g:a:1.0:dbg'' = Inr c' \<and> GradleSpecifier_eq c' ?c \<and>
                  extension c' = ''jar''"
    unfolding t' by simp
  with t' n show ?thesis by blast
qed

text \<open>
  The claim as first stated, for every accepted string, fails on inputs beyond the
  documented shapes: five segments and two \<open>@\<close> suffixes are cut down to \<open>a:b:c\<close>, which
  is not the input with at most an \<open>@jar\<close> suffix dropped; and for an empty fourth segment the
  canonical string \<open>a:b:c\<close> parses to a coordinate without classifier, which is not equal to
  the one with the empty classifier.
\<close>

theorem round_trip_counterexample:
  "GradleSpecifier_init ''a:b:c:d:e''
     = Inr \<lparr>group = ''a'', artifact = ''b'', version = ''c'', extension = ''jar'', classifier = None\<rparr> \<and>
   toString \<lparr>group = ''a'', artifact = ''b'', version = ''c'', extension = ''jar'', classifier = None\<rparr>
     = ''a:b:c'' \<and>
   spec_normalized_form ''a:b:c:d:e'' = ''a:b:c:d:e'' \<and>
   GradleSpecifier_init ''a:b:c@x@y''
     = Inr \<lparr>group = ''a'', artifact = ''b'', version = ''c'', extension = ''jar'', classifier = None\<rparr> \<and>
   spec_normalized_form ''a:b:c@x@y'' = ''a:b:c@x@y'' \<and>
   GradleSpecifier_init ''a:b:c:''
     = Inr \<lparr>group = ''a'', artifact = ''b'', version = ''c'', extension = ''jar'', classifier = Some []\<rparr> \<and>
   toString \<lparr>group = ''a'', artifact = ''b'', version = ''c'', extension = ''jar'', classifier = Some []\<rparr>
     = ''a:b:c'' \<and>
   GradleSpecifier_init ''a:b:c''
     = Inr \<lparr>group = ''a'', artifact = ''b'', version = ''c'', extension = ''jar'', classifier = None\<rparr> \<and>
   \<not> GradleSpecifier_eq
       \<lparr>group = ''a'', artifact = ''b'', version = ''c'', extension = ''jar'', classifier = None\<rparr>
       \<lparr>group = ''a'', artifact = ''b'', version = ''c'', extension = ''jar'', classifier = Some []\<rparr>"
  by (simp add: init_cases toString_def truthy_def spec_normalized_form_def GradleSpecifier_eq_def)

section \<open>Hashing and equality\<close>

text \<open>
  Claim C1 asks that equal coordinates hash equal. In the code the hash of a coordinate is
  the string hash of its canonical string, which holds a non-default extension, while
  equality ignores the extension. The coordinates parsed from \<open>"g:a:1.0@zip"\<close> and
  \<open>"g:a:1.0"\<close> are equal, and their hashes are, for every string hash, the hashes of the two
  different strings \<open>"g:a:1.0@zip"\<close> and \<open>"g:a:1.0"\<close>; a string hash that tells the two
  apart, as the length does, gives the equal coordinates different hashes.
\<close>

theorem equal_coordinates_hash_different_strings:
  "GradleSpecifier_init ''g:a:1.0@zip''
     = Inr \<lparr>group = ''g'', artifact = ''a'', version = ''1.0'', extension = ''zip'', classifier = None\<rparr> \<and>
   GradleSpecifier_init ''g:a:1.0''
     = Inr \<lparr>group = ''g'', artifact = ''a'', version = ''1.0'', extension = ''jar'', classifier = None\<rparr> \<and>
   GradleSpecifier_eq
     \<lparr>group = ''g'', artifact = ''a'', version = ''1.0'', extension = ''zip'', classifier = None\<rparr>
     \<lparr>group = ''g'', artifact = ''a'', version = ''1.0'', extension = ''jar'', classifier = None\<rparr> \<and>
   GradleSpecifier_hash str_hash
     \<lparr>group = ''g'', artifact = ''a'', version = ''1.0'', extension = ''zip'', classifier = None\<rparr>
     = str_hash ''g:a:1.0@zip'' \<and>
   GradleSpecifier_hash str_hash
     \<lparr>group = ''g'', artifact = ''a'', version = ''1.0'', extension = ''jar'', classifier = None\<rparr>
     = str_hash ''g:a:1.0'' \<and>
   GradleSpecifier_hash (\<lambda>s. int (length s))
     \<lparr>group = ''g'', artifact = ''a'', version = ''1.0'', extension = ''zip'', classifier = None\<rparr>
     \<noteq> GradleSpecifier_hash (\<lambda>s. int (length s))
     \<lparr>group = ''g'', artifact = ''a'', version = ''1.0'', extension = ''jar'', classifier = None\<rparr>"
  by (simp add: init_cases GradleSpecifier_eq_def GradleSpecifier_hash_def toString_def truthy_def)

end
